theory Spec2Isabelle
  imports Main "HOL-Library.Multiset" "HOL-Library.Word"
begin

section \<open>The reflection data model\<close>

text \<open>
  The generator in \<^verbatim>\<open>internal/cmd/builtin/cmd/generate.go\<close> walks a Go value through
  package \<^verbatim>\<open>reflect\<close> and builds a \<^verbatim>\<open>jen\<close> code expression for it. Both libraries are
  external; what follows models the part of their interface that \<^verbatim>\<open>indirectType\<close> and
  \<^verbatim>\<open>constructValue\<close> use.

  \<^verbatim>\<open>reflect.Kind\<close>, with Go's constant names (\<^verbatim>\<open>reflect.Int\<close> is written \<open>Int'\<close>, the plain
  name being taken by set intersection).
\<close>

datatype kind =
    Invalid
  | Bool | Int' | Int8 | Int16 | Int32 | Int64
  | Uint | Uint8 | Uint16 | Uint32 | Uint64 | Uintptr
  | Float32 | Float64 | Complex64 | Complex128
  | Array | Chan | Func | Interface | Map | Ptr | Slice | String | Struct
  | UnsafePointer

text \<open>\<^verbatim>\<open>Kind.String()\<close>, which is what the verb \<^verbatim>\<open>%v\<close> prints for a kind.\<close>

fun kind_String :: "kind \<Rightarrow> string" where
  "kind_String Invalid = ''invalid''"
| "kind_String Bool = ''bool''"
| "kind_String Int' = ''int''"
| "kind_String Int8 = ''int8''"
| "kind_String Int16 = ''int16''"
| "kind_String Int32 = ''int32''"
| "kind_String Int64 = ''int64''"
| "kind_String Uint = ''uint''"
| "kind_String Uint8 = ''uint8''"
| "kind_String Uint16 = ''uint16''"
| "kind_String Uint32 = ''uint32''"
| "kind_String Uint64 = ''uint64''"
| "kind_String Uintptr = ''uintptr''"
| "kind_String Float32 = ''float32''"
| "kind_String Float64 = ''float64''"
| "kind_String Complex64 = ''complex64''"
| "kind_String Complex128 = ''complex128''"
| "kind_String Array = ''array''"
| "kind_String Chan = ''chan''"
| "kind_String Func = ''func''"
| "kind_String Interface = ''interface''"
| "kind_String Map = ''map''"
| "kind_String Ptr = ''ptr''"
| "kind_String Slice = ''slice''"
| "kind_String String = ''string''"
| "kind_String Struct = ''struct''"
| "kind_String UnsafePointer = ''unsafe.Pointer''"

text \<open>
  \<^verbatim>\<open>reflect.Type\<close>. A type descriptor is a node of the runtime's type graph: a map type
  points to its key and element descriptors, a pointer, array or slice type to its
  element descriptor, and every descriptor has a package path and a name (both empty
  for an unnamed type). The graph of a recursive named type such as
  \<^verbatim>\<open>type T []T\<close> is cyclic, so descriptors are possibly infinite trees: a codatatype.
  The arguments are \<^verbatim>\<open>PkgPath()\<close>, \<^verbatim>\<open>Name()\<close>, then \<^verbatim>\<open>Key()\<close> and \<^verbatim>\<open>Elem()\<close> where the kind
  has them (and \<^verbatim>\<open>Len()\<close> for an array). \<open>Named k\<close> stands for a descriptor of any other
  kind \<open>k\<close>: the scalars, structs, interfaces, channels, functions; \<^verbatim>\<open>indirectType\<close>
  looks at nothing but the package path and the name of such a descriptor.
\<close>

codatatype rtype =
    MapOf string string rtype rtype
  | PtrTo string string rtype
  | ArrayOf string string nat rtype
  | SliceOf string string rtype
  | Named kind string string

fun TKind :: "rtype \<Rightarrow> kind" where
  "TKind (MapOf p n k e) = Map"
| "TKind (PtrTo p n e) = Ptr"
| "TKind (ArrayOf p n l e) = Array"
| "TKind (SliceOf p n e) = Slice"
| "TKind (Named k p n) = k"

text \<open>
  The payload of a value of scalar kind, one constructor per kind of the scalar case
  of \<^verbatim>\<open>constructValue\<close>. Integers are machine words of the kind's width (\<^verbatim>\<open>int\<close>,
  \<^verbatim>\<open>uint\<close> and \<^verbatim>\<open>uintptr\<close> taken as 64 bits wide); a floating-point number is its
  IEEE bit pattern and a complex number the pair of its parts: the generator carries
  them and never computes with them.
\<close>

datatype prim =
    PBool bool
  | PInt "64 word" | PInt8 "8 word" | PInt16 "16 word" | PInt32 "32 word" | PInt64 "64 word"
  | PUint "64 word" | PUint8 "8 word" | PUint16 "16 word" | PUint32 "32 word" | PUint64 "64 word"
  | PUintptr "64 word"
  | PFloat32 "32 word" | PFloat64 "64 word"
  | PComplex64 "32 word" "32 word" | PComplex128 "64 word" "64 word"
  | PString string

fun prim_Kind :: "prim \<Rightarrow> kind" where
  "prim_Kind (PBool b) = Bool"
| "prim_Kind (PInt w) = Int'"
| "prim_Kind (PInt8 w) = Int8"
| "prim_Kind (PInt16 w) = Int16"
| "prim_Kind (PInt32 w) = Int32"
| "prim_Kind (PInt64 w) = Int64"
| "prim_Kind (PUint w) = Uint"
| "prim_Kind (PUint8 w) = Uint8"
| "prim_Kind (PUint16 w) = Uint16"
| "prim_Kind (PUint32 w) = Uint32"
| "prim_Kind (PUint64 w) = Uint64"
| "prim_Kind (PUintptr w) = Uintptr"
| "prim_Kind (PFloat32 w) = Float32"
| "prim_Kind (PFloat64 w) = Float64"
| "prim_Kind (PComplex64 r i) = Complex64"
| "prim_Kind (PComplex128 r i) = Complex128"
| "prim_Kind (PString s) = String"

text \<open>
  \<^verbatim>\<open>reflect.Value\<close>, as the tagged union that the kind switch of \<^verbatim>\<open>constructValue\<close>
  takes apart. Every value but the zero \<^verbatim>\<open>Value\<close> carries its \<^verbatim>\<open>Type()\<close>.
  \<^item> \<open>Zero\<close> is the zero \<^verbatim>\<open>Value\<close>, of kind \<^verbatim>\<open>Invalid\<close>: what \<^verbatim>\<open>MapIndex\<close> returns
    for a key it does not find.
  \<^item> \<open>ArrayV\<close> holds \<^verbatim>\<open>v.Index(0)\<close>, ..., \<^verbatim>\<open>v.Index(v.Len()-1)\<close>.
  \<^item> \<open>SliceV\<close>, \<open>InterfaceV\<close>, \<open>PtrV\<close> and \<open>MapV\<close> hold \<open>None\<close> when \<^verbatim>\<open>v.IsNil()\<close>.
  \<^item> \<open>MapV\<close> holds, for each key of \<^verbatim>\<open>v.MapKeys()\<close> in the order in which this call
    returned them, the key and \<^verbatim>\<open>v.MapIndex(key)\<close>.
  \<^item> \<open>StructV\<close> holds, for each field in declaration order, \<^verbatim>\<open>typ.Field(i).Name\<close>,
    \<^verbatim>\<open>v.Field(i).CanInterface()\<close> and \<^verbatim>\<open>v.Field(i)\<close>.
  Values are finite trees: the generator is applied to a parsed syntax tree.
\<close>

datatype rvalue =
    Zero
  | Scalar rtype prim
  | ArrayV rtype "rvalue list"
  | SliceV rtype "rvalue list option"
  | InterfaceV rtype "rvalue option"
  | PtrV rtype "rvalue option"
  | MapV rtype "(rvalue \<times> rvalue) list option"
  | StructV rtype "(string \<times> bool \<times> rvalue) list"
  | ChanV rtype
  | FuncV rtype
  | UnsafePointerV rtype

fun Kind :: "rvalue \<Rightarrow> kind" where
  "Kind Zero = Invalid"
| "Kind (Scalar typ p) = prim_Kind p"
| "Kind (ArrayV typ elems) = Array"
| "Kind (SliceV typ elems) = Slice"
| "Kind (InterfaceV typ elem) = Interface"
| "Kind (PtrV typ elem) = Ptr"
| "Kind (MapV typ entries) = Map"
| "Kind (StructV typ fields) = Struct"
| "Kind (ChanV typ) = Chan"
| "Kind (FuncV typ) = Func"
| "Kind (UnsafePointerV typ) = UnsafePointer"

section \<open>The code expressions of package jen\<close>

text \<open>
  \<^verbatim>\<open>jen.Code\<close> is an interface; \<open>Null\<close> is its nil value (the \<^verbatim>\<open>nil\<close> that
  \<^verbatim>\<open>constructValue\<close> returns beside an error), to be told apart from \<open>Nil\<close>, the
  identifier \<^verbatim>\<open>nil\<close> that \<^verbatim>\<open>jen.Nil()\<close> emits. A \<^verbatim>\<open>*jen.Statement\<close> is a list of
  codes. \<^verbatim>\<open>jen.Dict\<close> is a Go map from code to code: it has no order, and its keys are
  compared as pointers, each call of a \<^verbatim>\<open>jen\<close> constructor returning a fresh one, so
  that it is a finite multiset of key/value pairs. A literal token holds the
  \<^verbatim>\<open>interface{}\<close> handed to \<^verbatim>\<open>jen.Lit\<close>: a dynamic type and a payload.
\<close>

datatype code =
    Null
  | Op string
  | Qual string string
  | Id string
  | Nil
  | Lit rtype prim
  | Index "code list"
  | Values "code list"
  | Dict "(code \<times> code) multiset"
  | Statement "code list"

type_synonym statement = "code list"

definition jen_Index :: "code list \<Rightarrow> statement" where
  "jen_Index items = [Index items]"

definition jen_Op :: "string \<Rightarrow> statement" where
  "jen_Op op = [Op op]"

definition jen_Qual :: "string \<Rightarrow> string \<Rightarrow> statement" where
  "jen_Qual path name = [Qual path name]"

definition jen_Id :: "string \<Rightarrow> statement" where
  "jen_Id name = [Id name]"

definition jen_Nil :: statement where
  "jen_Nil = [Nil]"

definition jen_Lit :: "rtype \<times> prim \<Rightarrow> statement" where
  "jen_Lit v = [Lit (fst v) (snd v)]"

text \<open>\<^verbatim>\<open>s.Add(c)\<close> and \<^verbatim>\<open>s.Values(items...)\<close> append to the statement and return it.\<close>

definition Add :: "statement \<Rightarrow> code \<Rightarrow> statement" where
  "Add s c = s @ [c]"

definition Values_of :: "statement \<Rightarrow> code list \<Rightarrow> statement" where
  "Values_of s items = s @ [Values items]"

section \<open>indirectType\<close>

text \<open>
  The recursion follows the type graph, which may be cyclic, so the function is
  partial: \<open>None\<close> stands for a call that does not return.
\<close>

partial_function (option) indirectType :: "rtype \<Rightarrow> statement option" where
  "indirectType typ =
     (case typ of
        MapOf p n key elem \<Rightarrow>
          Option.bind (indirectType key) (\<lambda>k.
          Option.bind (indirectType elem) (\<lambda>e.
            Some (Add (jen_Index [Statement k]) (Statement e))))
      | PtrTo p n elem \<Rightarrow>
          Option.bind (indirectType elem) (\<lambda>e. Some (Add (jen_Op ''*'') (Statement e)))
      | ArrayOf p n l elem \<Rightarrow>
          Option.bind (indirectType elem) (\<lambda>e. Some (Add (jen_Index []) (Statement e)))
      | SliceOf p n elem \<Rightarrow>
          Option.bind (indirectType elem) (\<lambda>e. Some (Add (jen_Index []) (Statement e)))
      | Named k p n \<Rightarrow> Some (jen_Qual p n))"

section \<open>constructValue\<close>

text \<open>An error is its message; \<^verbatim>\<open>fmt.Errorf("unsupport value kind %v", v.Kind())\<close>:\<close>

type_synonym error = string

definition Errorf_unsupport :: "kind \<Rightarrow> error" where
  "Errorf_unsupport k = ''unsupport value kind '' @ kind_String k"

text \<open>The table \<^verbatim>\<open>types\<close>; \<^verbatim>\<open>reflect.TypeOf(int8(0))\<close> is the predeclared type \<^verbatim>\<open>int8\<close>.\<close>

definition types :: "kind \<rightharpoonup> rtype" where
  "types = map_of
     [(Bool, Named Bool [] ''bool''),
      (Int', Named Int' [] ''int''),
      (Int8, Named Int8 [] ''int8''),
      (Int16, Named Int16 [] ''int16''),
      (Int32, Named Int32 [] ''int32''),
      (Int64, Named Int64 [] ''int64''),
      (Uint, Named Uint [] ''uint''),
      (Uint8, Named Uint8 [] ''uint8''),
      (Uint16, Named Uint16 [] ''uint16''),
      (Uint32, Named Uint32 [] ''uint32''),
      (Uint64, Named Uint64 [] ''uint64''),
      (Uintptr, Named Uintptr [] ''uintptr''),
      (Float32, Named Float32 [] ''float32''),
      (Float64, Named Float64 [] ''float64''),
      (Complex64, Named Complex64 [] ''complex64''),
      (Complex128, Named Complex128 [] ''complex128''),
      (String, Named String [] ''string'')]"

text \<open>
  \<^verbatim>\<open>v.Convert(typ)\<close> followed by \<^verbatim>\<open>Interface()\<close>, for a scalar \<open>v\<close>. A conversion to a
  type of the value's own kind keeps the payload and changes the type. The generator
  asks for no other conversion; those are left out of the model (\<open>None\<close>), as is the
  conversion to the nil type that a kind missing from \<^verbatim>\<open>types\<close> would give, on
  which \<^verbatim>\<open>Convert\<close> panics.
\<close>

definition Convert :: "prim \<Rightarrow> rtype option \<Rightarrow> (rtype \<times> prim) option" where
  "Convert p typ =
     (case typ of
        None \<Rightarrow> None
      | Some t \<Rightarrow> if TKind t = prim_Kind p then Some (t, p) else None)"

text \<open>
  \<^verbatim>\<open>constructValue\<close> returns a pair of a code and an error, when it returns: \<open>None\<close>
  stands for a call that does not return (\<^verbatim>\<open>indirectType\<close> recursing forever, a
  panic). The three loops are functions of the elements still to visit and of the
  collection built so far; they give \<open>Inl err\<close> where the source leaves the function
  with \<^verbatim>\<open>return nil, err\<close>, and the finished collection otherwise.
\<close>

function (sequential) constructValue :: "rvalue \<Rightarrow> (code \<times> error option) option"
  and loop_Index :: "nat \<Rightarrow> rvalue list \<Rightarrow> code list \<Rightarrow> (error + code list) option"
  and loop_MapKeys ::
    "(rvalue \<times> rvalue) list \<Rightarrow> (code \<times> code) multiset \<Rightarrow> (error + (code \<times> code) multiset) option"
  and loop_Field ::
    "(string \<times> bool \<times> rvalue) list \<Rightarrow> (code \<times> code) multiset \<Rightarrow> (error + (code \<times> code) multiset) option"
where
  "constructValue (ArrayV typ elems) =
     (case indirectType typ of
        None \<Rightarrow> None
      | Some s \<Rightarrow>
         (case loop_Index 0 elems (replicate (length elems) Null) of
            None \<Rightarrow> None
          | Some (Inl err) \<Rightarrow> Some (Null, Some err)
          | Some (Inr values) \<Rightarrow> Some (Statement (Values_of s values), None)))"
| "constructValue (SliceV typ None) = Some (Statement jen_Nil, None)"
| "constructValue (SliceV typ (Some elems)) =
     (case indirectType typ of
        None \<Rightarrow> None
      | Some s \<Rightarrow>
         (case loop_Index 0 elems (replicate (length elems) Null) of
            None \<Rightarrow> None
          | Some (Inl err) \<Rightarrow> Some (Null, Some err)
          | Some (Inr values) \<Rightarrow> Some (Statement (Values_of s values), None)))"
| "constructValue (InterfaceV typ None) = Some (Statement jen_Nil, None)"
| "constructValue (InterfaceV typ (Some elem)) = constructValue elem"
| "constructValue (PtrV typ None) = Some (Statement jen_Nil, None)"
| "constructValue (PtrV typ (Some elem)) =
     (let s = jen_Op ''&'' in
      case constructValue elem of
        None \<Rightarrow> None
      | Some (val, Some err) \<Rightarrow> Some (Null, Some err)
      | Some (val, None) \<Rightarrow> Some (Statement (Add s val), None))"
| "constructValue (MapV typ None) = Some (Statement jen_Nil, None)"
| "constructValue (MapV typ (Some entries)) =
     (case indirectType typ of
        None \<Rightarrow> None
      | Some s \<Rightarrow>
         (case loop_MapKeys entries {#} of
            None \<Rightarrow> None
          | Some (Inl err) \<Rightarrow> Some (Null, Some err)
          | Some (Inr values) \<Rightarrow> Some (Statement (Values_of s [Dict values]), None)))"
| "constructValue (StructV typ fields) =
     (case indirectType typ of
        None \<Rightarrow> None
      | Some s \<Rightarrow>
         (case loop_Field fields {#} of
            None \<Rightarrow> None
          | Some (Inl err) \<Rightarrow> Some (Null, Some err)
          | Some (Inr values) \<Rightarrow> Some (Statement (Values_of s [Dict values]), None)))"
| "constructValue (Scalar t p) =
     (let typ = types (Kind (Scalar t p)) in
      case Convert p typ of
        None \<Rightarrow> None
      | Some cv \<Rightarrow> Some (Statement (jen_Lit cv), None))"
| "constructValue Zero = Some (Null, Some (Errorf_unsupport (Kind Zero)))"
| "constructValue (ChanV typ) = Some (Null, Some (Errorf_unsupport (Kind (ChanV typ))))"
| "constructValue (FuncV typ) = Some (Null, Some (Errorf_unsupport (Kind (FuncV typ))))"
| "constructValue (UnsafePointerV typ) =
     Some (Null, Some (Errorf_unsupport (Kind (UnsafePointerV typ))))"
| "loop_Index i [] values = Some (Inr values)"
| "loop_Index i (elem # elems) values =
     (case constructValue elem of
        None \<Rightarrow> None
      | Some (val, Some err) \<Rightarrow> Some (Inl err)
      | Some (val, None) \<Rightarrow> loop_Index (i + 1) elems (values[i := val]))"
| "loop_MapKeys [] values = Some (Inr values)"
| "loop_MapKeys ((k, elem) # entries) values =
     (case constructValue k of
        None \<Rightarrow> None
      | Some (key, Some err) \<Rightarrow> Some (Inl err)
      | Some (key, None) \<Rightarrow>
         (case constructValue elem of
            None \<Rightarrow> None
          | Some (val, Some err) \<Rightarrow> Some (Inl err)
          | Some (val, None) \<Rightarrow> loop_MapKeys entries (add_mset (key, val) values)))"
| "loop_Field [] values = Some (Inr values)"
| "loop_Field ((name, canInterface, field) # fields) values =
     (if \<not> canInterface then loop_Field fields values
      else
        case constructValue field of
          None \<Rightarrow> None
        | Some (val, Some err) \<Rightarrow> Some (Inl err)
        | Some (val, None) \<Rightarrow> loop_Field fields (add_mset (Statement (jen_Id name), val) values))"
  by pat_completeness auto

termination
  by (relation "measure (\<lambda>x. case x of
         Inl (Inl v) \<Rightarrow> size v
       | Inl (Inr (i, elems, values)) \<Rightarrow> size_list size elems
       | Inr (Inl (entries, values)) \<Rightarrow> size_list (size_prod size size) entries
       | Inr (Inr (fields, values)) \<Rightarrow>
           size_list (size_prod (\<lambda>n. 0) (size_prod (\<lambda>b. 0) size)) fields)")
    auto

section \<open>Notions used to state the properties\<close>

text \<open>
  The kinds named by the case labels of the switch in \<^verbatim>\<open>constructValue\<close>, in the
  order of the source, and those of its last case, the scalars.
\<close>

definition scalar_kinds :: "kind list" where
  "scalar_kinds =
     [Bool, Int', Int8, Int16, Int32, Int64, Uint, Uint8, Uint16, Uint32, Uint64, Uintptr,
      Float32, Float64, Complex64, Complex128, String]"

definition case_kinds :: "kind list" where
  "case_kinds = [Array, Slice, Interface, Ptr, Map] @ [Struct] @ scalar_kinds"

text \<open>
  A type descriptor is finite when following its key and element descriptors always
  ends, that is, when no map, pointer, array or slice type in it is declared in terms
  of itself.
\<close>

inductive finite_type :: "rtype \<Rightarrow> bool" where
  Named: "finite_type (Named k p n)"
| MapOf: "finite_type key \<Longrightarrow> finite_type elem \<Longrightarrow> finite_type (MapOf p n key elem)"
| PtrTo: "finite_type elem \<Longrightarrow> finite_type (PtrTo p n elem)"
| ArrayOf: "finite_type elem \<Longrightarrow> finite_type (ArrayOf p n l elem)"
| SliceOf: "finite_type elem \<Longrightarrow> finite_type (SliceOf p n elem)"

text \<open>The descriptor of the Go type \<^verbatim>\<open>type T []T\<close> of a package \<^verbatim>\<open>main\<close>.\<close>

primcorec recursive_slice :: rtype where
  "recursive_slice = SliceOf ''main'' ''T'' recursive_slice"

text \<open>
  The values on which \<^verbatim>\<open>constructValue v\<close> calls itself, in the order of the calls
  (as far as they are reached), and the descriptor it hands to \<^verbatim>\<open>indirectType\<close>
  before them.
\<close>

fun calls :: "rvalue \<Rightarrow> rvalue list" where
  "calls (ArrayV typ elems) = elems"
| "calls (SliceV typ (Some elems)) = elems"
| "calls (InterfaceV typ (Some elem)) = [elem]"
| "calls (PtrV typ (Some elem)) = [elem]"
| "calls (MapV typ (Some entries)) = concat (map (\<lambda>(k, elem). [k, elem]) entries)"
| "calls (StructV typ fields) =
     map (\<lambda>(name, canInterface, field). field)
       (filter (\<lambda>(name, canInterface, field). canInterface) fields)"
| "calls v = []"

fun resolves :: "rvalue \<Rightarrow> rtype option" where
  "resolves (ArrayV typ elems) = Some typ"
| "resolves (SliceV typ (Some elems)) = Some typ"
| "resolves (MapV typ (Some entries)) = Some typ"
| "resolves (StructV typ fields) = Some typ"
| "resolves v = None"

text \<open>
  The components of a value that the generator can reach: the value, and the
  components of the elements of an array or present slice, of the keys and elements of
  a present map, of the content of a non-nil interface or pointer, and of the struct
  fields that can be interfaced.
\<close>

fun components :: "rvalue \<Rightarrow> rvalue list" where
  "components (ArrayV typ elems) = ArrayV typ elems # concat (map components elems)"
| "components (SliceV typ (Some elems)) = SliceV typ (Some elems) # concat (map components elems)"
| "components (InterfaceV typ (Some elem)) = InterfaceV typ (Some elem) # components elem"
| "components (PtrV typ (Some elem)) = PtrV typ (Some elem) # components elem"
| "components (MapV typ (Some entries)) =
     MapV typ (Some entries) #
     concat (map (\<lambda>(k, elem). components k @ components elem) entries)"
| "components (StructV typ fields) =
     StructV typ fields #
     concat (map (\<lambda>(name, canInterface, field). if canInterface then components field else [])
       fields)"
| "components v = [v]"

definition supported :: "rvalue \<Rightarrow> bool" where
  "supported v = list_all (\<lambda>c. Kind c \<in> set case_kinds) (components v)"

definition types_finite :: "rvalue \<Rightarrow> bool" where
  "types_finite v =
     list_all (\<lambda>c. case resolves c of None \<Rightarrow> True | Some typ \<Rightarrow> finite_type typ) (components v)"

text \<open>
  Two calls of \<^verbatim>\<open>MapKeys\<close> on one map may list its keys in different orders. Two
  values of the model are views of the same Go value when they differ at most in
  the order of the entries of the maps in them; \<open>small_maps\<close> says that every map in
  a value has at most one entry.
\<close>

inductive same_value :: "rvalue \<Rightarrow> rvalue \<Rightarrow> bool" where
  Zero: "same_value Zero Zero"
| Scalar: "same_value (Scalar typ p) (Scalar typ p)"
| ArrayV: "list_all2 same_value elems elems' \<Longrightarrow> same_value (ArrayV typ elems) (ArrayV typ elems')"
| SliceV_nil: "same_value (SliceV typ None) (SliceV typ None)"
| SliceV: "list_all2 same_value elems elems' \<Longrightarrow>
    same_value (SliceV typ (Some elems)) (SliceV typ (Some elems'))"
| InterfaceV_nil: "same_value (InterfaceV typ None) (InterfaceV typ None)"
| InterfaceV: "same_value elem elem' \<Longrightarrow>
    same_value (InterfaceV typ (Some elem)) (InterfaceV typ (Some elem'))"
| PtrV_nil: "same_value (PtrV typ None) (PtrV typ None)"
| PtrV: "same_value elem elem' \<Longrightarrow> same_value (PtrV typ (Some elem)) (PtrV typ (Some elem'))"
| MapV_nil: "same_value (MapV typ None) (MapV typ None)"
| MapV: "list_all2 (\<lambda>e e'. same_value (fst e) (fst e') \<and> same_value (snd e) (snd e'))
      entries entries' \<Longrightarrow>
    mset entries'' = mset entries' \<Longrightarrow>
    same_value (MapV typ (Some entries)) (MapV typ (Some entries''))"
| StructV: "list_all2 (\<lambda>f f'. fst f = fst f' \<and> fst (snd f) = fst (snd f') \<and>
        same_value (snd (snd f)) (snd (snd f'))) fields fields' \<Longrightarrow>
    same_value (StructV typ fields) (StructV typ fields')"
| ChanV: "same_value (ChanV typ) (ChanV typ)"
| FuncV: "same_value (FuncV typ) (FuncV typ)"
| UnsafePointerV: "same_value (UnsafePointerV typ) (UnsafePointerV typ)"

fun small_maps :: "rvalue \<Rightarrow> bool" where
  "small_maps (ArrayV typ elems) = (\<forall>x\<in>set elems. small_maps x)"
| "small_maps (SliceV typ (Some elems)) = (\<forall>x\<in>set elems. small_maps x)"
| "small_maps (InterfaceV typ (Some elem)) = small_maps elem"
| "small_maps (PtrV typ (Some elem)) = small_maps elem"
| "small_maps (MapV typ (Some entries)) =
     (length entries \<le> 1 \<and> (\<forall>(k, elem)\<in>set entries. small_maps k \<and> small_maps elem))"
| "small_maps (StructV typ fields) =
     (\<forall>(name, canInterface, field)\<in>set fields. small_maps field)"
| "small_maps v = True"

text \<open>The list \<open>k\<^sub>1, v\<^sub>1, k\<^sub>2, v\<^sub>2, \<dots>\<close> read as key/value pairs.\<close>

fun pairs :: "'a list \<Rightarrow> ('a \<times> 'a) list" where
  "pairs (k # v # rest) = (k, v) # pairs rest"
| "pairs rest = []"

text \<open>
  The outcome of a run of recursive calls, one after the other, that stops at the
  first call that returns an error or does not return.
\<close>

fun sequence :: "rvalue list \<Rightarrow> (error + code list) option" where
  "sequence [] = Some (Inr [])"
| "sequence (x # xs) =
     (case constructValue x of
        None \<Rightarrow> None
      | Some (val, Some err) \<Rightarrow> Some (Inl err)
      | Some (val, None) \<Rightarrow>
         (case sequence xs of
            None \<Rightarrow> None
          | Some (Inl err) \<Rightarrow> Some (Inl err)
          | Some (Inr vals) \<Rightarrow> Some (Inr (val # vals))))"

section \<open>The type expression: when indirectType returns\<close>

lemma indirectType_Named: "indirectType (Named k p n) = Some [Qual p n]"
  by (subst indirectType.simps) (simp add: jen_Qual_def)

lemma indirectType_MapOf:
  "indirectType (MapOf p n key elem) =
     (case indirectType key of
        None \<Rightarrow> None
      | Some k \<Rightarrow>
         (case indirectType elem of
            None \<Rightarrow> None
          | Some e \<Rightarrow> Some [Index [Statement k], Statement e]))"
  by (subst indirectType.simps) (simp add: jen_Index_def Add_def split: option.splits)

lemma indirectType_PtrTo:
  "indirectType (PtrTo p n elem) =
     (case indirectType elem of None \<Rightarrow> None | Some e \<Rightarrow> Some [Op ''*'', Statement e])"
  by (subst indirectType.simps) (simp add: jen_Op_def Add_def split: option.splits)

lemma indirectType_ArrayOf:
  "indirectType (ArrayOf p n l elem) =
     (case indirectType elem of None \<Rightarrow> None | Some e \<Rightarrow> Some [Index [], Statement e])"
  by (subst indirectType.simps) (simp add: jen_Index_def Add_def split: option.splits)

lemma indirectType_SliceOf:
  "indirectType (SliceOf p n elem) =
     (case indirectType elem of None \<Rightarrow> None | Some e \<Rightarrow> Some [Index [], Statement e])"
  by (subst indirectType.simps) (simp add: jen_Index_def Add_def split: option.splits)

lemmas indirectType_simps =
  indirectType_Named indirectType_MapOf indirectType_PtrTo indirectType_ArrayOf indirectType_SliceOf

lemma indirectType_finite: "finite_type typ \<Longrightarrow> \<exists>s. indirectType typ = Some s"
  by (induction rule: finite_type.induct) (auto simp: indirectType_simps)

lemma indirectType_Some_finite: "indirectType typ = Some s \<Longrightarrow> finite_type typ"
proof (induction arbitrary: s rule: indirectType.raw_induct[rotated 1, consumes 1])
  case (1 f t s)
  show ?case
  proof (cases t)
    case (MapOf p n key elem)
    with 1(2) obtain k e where "f key = Some k" "f elem = Some e"
      by (auto split: Option.bind_splits)
    then show ?thesis using 1(1) MapOf by (auto intro: finite_type.intros)
  next
    case (PtrTo p n elem)
    with 1(2) obtain e where "f elem = Some e" by (auto split: Option.bind_splits)
    then show ?thesis using 1(1) PtrTo by (auto intro: finite_type.intros)
  next
    case (ArrayOf p n l elem)
    with 1(2) obtain e where "f elem = Some e" by (auto split: Option.bind_splits)
    then show ?thesis using 1(1) ArrayOf by (auto intro: finite_type.intros)
  next
    case (SliceOf p n elem)
    with 1(2) obtain e where "f elem = Some e" by (auto split: Option.bind_splits)
    then show ?thesis using 1(1) SliceOf by (auto intro: finite_type.intros)
  next
    case (Named k p n)
    then show ?thesis by (simp add: finite_type.Named)
  qed
qed

lemma recursive_slice_unfold: "recursive_slice = SliceOf ''main'' ''T'' recursive_slice"
  by (subst recursive_slice.code) simp

lemma finite_type_neq_recursive_slice: "finite_type t \<Longrightarrow> t \<noteq> recursive_slice"
proof (induction rule: finite_type.induct)
  case (SliceOf elem p n)
  show ?case
  proof
    assume "SliceOf p n elem = recursive_slice"
    then have "SliceOf p n elem = SliceOf ''main'' ''T'' recursive_slice"
      by (subst (asm) recursive_slice_unfold)
    with SliceOf.IH show False by simp
  qed
qed (subst recursive_slice_unfold, simp)+

lemma not_finite_recursive_slice: "\<not> finite_type recursive_slice"
  using finite_type_neq_recursive_slice by blast

lemma indirectType_recursive_slice: "indirectType recursive_slice = None"
  using indirectType_Some_finite not_finite_recursive_slice by (cases "indirectType recursive_slice") auto

text \<open>
  C8 (resolver totality), as the code has it. \<^verbatim>\<open>indirectType\<close> returns a type expression
  exactly on the finite type descriptors, and has no error result. On a map type it
  recurses into the key and the element type, on a pointer, array or slice type into
  the element type, with an array and a slice type giving the same expression; on
  every other kind it returns the qualified name at once. It does not return on the
  descriptor of a type declared in terms of itself, such as \<^verbatim>\<open>type T []T\<close>.
\<close>

theorem indirectType_returns_iff_finite:
  "((\<exists>s. indirectType typ = Some s) \<longleftrightarrow> finite_type typ) \<and>
   indirectType (Named k p n) = Some [Qual p n] \<and>
   (indirectType key = Some ks \<longrightarrow> indirectType elem = Some es \<longrightarrow>
      indirectType (MapOf p' n' key elem) = Some [Index [Statement ks], Statement es] \<and>
      indirectType (PtrTo p' n' elem) = Some [Op ''*'', Statement es] \<and>
      indirectType (ArrayOf p' n' l elem) = Some [Index [], Statement es] \<and>
      indirectType (SliceOf p' n' elem) = Some [Index [], Statement es])"
  using indirectType_finite indirectType_Some_finite
  by (auto simp: indirectType_simps)

theorem indirectType_returns_iff_finite_witness:
  "finite_type (MapOf [] [] (Named String [] ''string'') (Named Struct ''ast'' ''File'')) \<and>
   indirectType (MapOf [] [] (Named String [] ''string'') (Named Struct ''ast'' ''File'')) =
     Some [Index [Statement [Qual [] ''string'']], Statement [Qual ''ast'' ''File'']] \<and>
   indirectType (SliceOf [] [] (Named Struct ''ast'' ''File'')) =
     Some [Index [], Statement [Qual ''ast'' ''File'']]"
proof -
  have elem: "indirectType (Named Struct ''ast'' ''File'') = Some [Qual ''ast'' ''File'']"
    using indirectType_returns_iff_finite [of _ Struct "''ast''" "''File''"] by simp
  have key: "indirectType (Named String [] ''string'') = Some [Qual [] ''string'']"
    using indirectType_returns_iff_finite [of _ String "[]" "''string''"] by simp
  note inst = indirectType_returns_iff_finite
      [of "MapOf [] [] (Named String [] ''string'') (Named Struct ''ast'' ''File'')"
          String "[]" "''string''" "Named String [] ''string''" "[Qual [] ''string'']"
          "Named Struct ''ast'' ''File''" "[Qual ''ast'' ''File'']" "[]" "[]" 0]
  have whole: "indirectType (MapOf [] [] (Named String [] ''string'') (Named Struct ''ast'' ''File'')) =
     Some [Index [Statement [Qual [] ''string'']], Statement [Qual ''ast'' ''File'']]"
    and slice: "indirectType (SliceOf [] [] (Named Struct ''ast'' ''File'')) =
     Some [Index [], Statement [Qual ''ast'' ''File'']]"
    using inst key elem by simp_all
  have "finite_type (MapOf [] [] (Named String [] ''string'') (Named Struct ''ast'' ''File''))"
    using inst whole by simp
  with whole slice show ?thesis by simp
qed

theorem indirectType_recursive_slice_diverges: "indirectType recursive_slice = None"
  by (rule indirectType_recursive_slice)

section \<open>The loops and the recursive calls\<close>

lemma sequence_length: "sequence xs = Some (Inr vals) \<Longrightarrow> length vals = length xs"
  by (induction xs arbitrary: vals) (auto split: option.splits sum.splits)

lemma sequence_Inr_iff:
  "sequence xs = Some (Inr vals) \<longleftrightarrow> list_all2 (\<lambda>x c. constructValue x = Some (c, None)) xs vals"
proof (induction xs arbitrary: vals)
  case Nil
  then show ?case by auto
next
  case (Cons x xs)
  show ?case
    by (cases vals) (auto simp: Cons.IH[symmetric] split: option.splits sum.splits)
qed

lemma sequence_error:
  "\<forall>p\<in>set pre. \<exists>c. constructValue p = Some (c, None) \<Longrightarrow>
   constructValue x = Some (c, Some err) \<Longrightarrow>
   sequence (pre @ x # post) = Some (Inl err)"
  by (induction pre) auto

lemma sequence_append:
  "sequence (xs @ ys) =
     (case sequence xs of
        None \<Rightarrow> None
      | Some (Inl err) \<Rightarrow> Some (Inl err)
      | Some (Inr vals) \<Rightarrow>
         (case sequence ys of
            None \<Rightarrow> None
          | Some (Inl err) \<Rightarrow> Some (Inl err)
          | Some (Inr vals') \<Rightarrow> Some (Inr (vals @ vals'))))"
  by (induction xs) (auto split: option.splits sum.splits)

lemma loop_Index_sequence:
  "i + length xs \<le> length vs \<Longrightarrow>
   loop_Index i xs vs =
     (case sequence xs of
        None \<Rightarrow> None
      | Some (Inl err) \<Rightarrow> Some (Inl err)
      | Some (Inr vals) \<Rightarrow> Some (Inr (take i vs @ vals @ drop (i + length xs) vs)))"
proof (induction xs arbitrary: i vs)
  case Nil
  then show ?case by simp
next
  case (Cons x xs)
  have i: "i < length vs" using Cons.prems by simp
  show ?case
  proof (cases "constructValue x")
    case None
    then show ?thesis by simp
  next
    case (Some r)
    obtain val e where r: "r = (val, e)" by (cases r)
    show ?thesis
    proof (cases e)
      case (Some err)
      with \<open>constructValue x = Some r\<close> r show ?thesis by simp
    next
      case None
      have "Suc i + length xs \<le> length (vs[i := val])" using Cons.prems by simp
      from Cons.IH [OF this] None r \<open>constructValue x = Some r\<close> i
      show ?thesis
        by (auto simp: take_Suc_conv_app_nth split: option.splits sum.splits)
    qed
  qed
qed

lemma loop_Index_0:
  "loop_Index 0 xs (replicate (length xs) Null) =
     (case sequence xs of
        None \<Rightarrow> None
      | Some (Inl err) \<Rightarrow> Some (Inl err)
      | Some (Inr vals) \<Rightarrow> Some (Inr vals))"
  by (subst loop_Index_sequence) (auto split: option.splits sum.splits)

lemma loop_MapKeys_sequence:
  "loop_MapKeys entries vs =
     (case sequence (concat (map (\<lambda>(k, elem). [k, elem]) entries)) of
        None \<Rightarrow> None
      | Some (Inl err) \<Rightarrow> Some (Inl err)
      | Some (Inr vals) \<Rightarrow> Some (Inr (mset (pairs vals) + vs)))"
proof (induction entries arbitrary: vs)
  case Nil
  then show ?case by simp
next
  case (Cons entry entries)
  obtain k elem where entry: "entry = (k, elem)" by (cases entry)
  show ?case
    unfolding entry
    by (auto simp: Cons.IH split: option.splits sum.splits)
qed

lemma loop_Field_sequence:
  "loop_Field fields vs =
     (case sequence (map (\<lambda>(name, canInterface, field). field)
             (filter (\<lambda>(name, canInterface, field). canInterface) fields)) of
        None \<Rightarrow> None
      | Some (Inl err) \<Rightarrow> Some (Inl err)
      | Some (Inr vals) \<Rightarrow>
          Some (Inr (mset (zip (map (\<lambda>(name, canInterface, field). Statement [Id name])
                             (filter (\<lambda>(name, canInterface, field). canInterface) fields)) vals)
                     + vs)))"
proof (induction fields arbitrary: vs)
  case Nil
  then show ?case by simp
next
  case (Cons f fields)
  obtain name canInterface field where f: "f = (name, canInterface, field)" by (cases f)
  show ?case
    unfolding f
    by (auto simp: Cons.IH jen_Id_def split: option.splits sum.splits)
qed

lemma calls_size: "c \<in> set (calls v) \<Longrightarrow> size c < size v"
proof (cases v rule: calls.cases)
  case (5 t entries)
  assume "c \<in> set (calls v)"
  with 5 obtain k e where ke: "(k, e) \<in> set entries" and c: "c = k \<or> c = e" by auto
  have "size_prod size size (k, e) \<le> size_list (size_prod size size) entries"
    using ke by (rule size_list_estimation') simp
  with c 5 show ?thesis by auto
next
  case (6 t fields)
  assume "c \<in> set (calls v)"
  with 6 obtain n b where f: "(n, b, c) \<in> set fields" by auto
  have "size_prod (\<lambda>n. 0) (size_prod (\<lambda>b. 0) size) (n, b, c)
          \<le> size_list (size_prod (\<lambda>n. 0) (size_prod (\<lambda>b. 0) size)) fields"
    using f by (rule size_list_estimation') simp
  with 6 show ?thesis by auto
qed (auto simp: less_Suc_eq_le intro: le_SucI size_list_estimation'[where f=size])

lemma calls_induct [case_names step]:
  assumes "\<And>v. (\<And>c. c \<in> set (calls v) \<Longrightarrow> P c) \<Longrightarrow> P v"
  shows "P v"
proof (induction v rule: measure_induct_rule [where f = size])
  case (less v)
  show ?case by (rule assms) (simp add: less calls_size)
qed

lemma components_entries:
  "concat (map (\<lambda>(k, elem). components k @ components elem) entries) =
   concat (map components (concat (map (\<lambda>(k, elem). [k, elem]) entries)))"
  by (induction entries) auto

lemma components_fields:
  "concat (map (\<lambda>(name, canInterface, field). if canInterface then components field else []) fields) =
   concat (map components (map (\<lambda>(name, canInterface, field). field)
     (filter (\<lambda>(name, canInterface, field). canInterface) fields)))"
  by (induction fields) auto

lemma components_calls: "components v = v # concat (map components (calls v))"
  by (cases v rule: calls.cases) (simp_all add: components_entries components_fields)

lemma constructValue_ArrayV:
  "constructValue (ArrayV typ elems) =
     (case indirectType typ of
        None \<Rightarrow> None
      | Some s \<Rightarrow>
         (case sequence elems of
            None \<Rightarrow> None
          | Some (Inl err) \<Rightarrow> Some (Null, Some err)
          | Some (Inr vals) \<Rightarrow> Some (Statement (s @ [Values vals]), None)))"
  by (simp add: loop_Index_0 Values_of_def split: option.splits sum.splits)

lemma constructValue_SliceV:
  "constructValue (SliceV typ (Some elems)) =
     (case indirectType typ of
        None \<Rightarrow> None
      | Some s \<Rightarrow>
         (case sequence elems of
            None \<Rightarrow> None
          | Some (Inl err) \<Rightarrow> Some (Null, Some err)
          | Some (Inr vals) \<Rightarrow> Some (Statement (s @ [Values vals]), None)))"
  by (simp add: loop_Index_0 Values_of_def split: option.splits sum.splits)

lemma constructValue_MapV:
  "constructValue (MapV typ (Some entries)) =
     (case indirectType typ of
        None \<Rightarrow> None
      | Some s \<Rightarrow>
         (case sequence (concat (map (\<lambda>(k, elem). [k, elem]) entries)) of
            None \<Rightarrow> None
          | Some (Inl err) \<Rightarrow> Some (Null, Some err)
          | Some (Inr vals) \<Rightarrow> Some (Statement (s @ [Values [Dict (mset (pairs vals))]]), None)))"
  by (simp add: loop_MapKeys_sequence Values_of_def split: option.splits sum.splits)

lemma constructValue_StructV:
  "constructValue (StructV typ fields) =
     (case indirectType typ of
        None \<Rightarrow> None
      | Some s \<Rightarrow>
         (case sequence (map (\<lambda>(name, canInterface, field). field)
                 (filter (\<lambda>(name, canInterface, field). canInterface) fields)) of
            None \<Rightarrow> None
          | Some (Inl err) \<Rightarrow> Some (Null, Some err)
          | Some (Inr vals) \<Rightarrow>
              Some (Statement (s @ [Values [Dict (mset (zip
                (map (\<lambda>(name, canInterface, field). Statement [Id name])
                   (filter (\<lambda>(name, canInterface, field). canInterface) fields)) vals))]]), None)))"
  by (simp add: loop_Field_sequence Values_of_def split: option.splits sum.splits)

lemma constructValue_PtrV:
  "constructValue (PtrV typ (Some elem)) =
     (case sequence [elem] of
        None \<Rightarrow> None
      | Some (Inl err) \<Rightarrow> Some (Null, Some err)
      | Some (Inr vals) \<Rightarrow> Some (Statement (Op ''&'' # vals), None))"
  by (simp add: jen_Op_def Add_def split: option.splits sum.splits)

lemmas constructValue_composite =
  constructValue_ArrayV constructValue_SliceV constructValue_MapV constructValue_StructV
  constructValue_PtrV

lemma types_scalar:
  "\<exists>name. types (prim_Kind p) = Some (Named (prim_Kind p) [] name)"
  by (cases p) (simp_all add: types_def)

lemma constructValue_Scalar:
  "\<exists>name. types (prim_Kind p) = Some (Named (prim_Kind p) [] name) \<and>
     constructValue (Scalar typ p) = Some (Statement [Lit (Named (prim_Kind p) [] name) p], None)"
  using types_scalar [of p] by (auto simp: Convert_def jen_Lit_def)

lemma dom_types: "dom types = set scalar_kinds"
  by (auto simp: types_def scalar_kinds_def dom_def split: if_splits)

lemma constructValue_Scalar_no_error:
  "constructValue (Scalar typ p) \<noteq> Some (c, Some err)"
  using constructValue_Scalar [of p] by (metis Pair_inject option.distinct(1) option.inject)

lemma error_Null: "constructValue v = Some (c, Some err) \<Longrightarrow> c = Null"
proof (induction v arbitrary: c rule: calls_induct)
  case (step v)
  show ?case
  proof (cases v rule: calls.cases)
    case (3 t elem)
    with step show ?thesis by simp
  qed (use step.prems in \<open>auto simp del: constructValue.simps(1,3,7,9,10,11)
         simp: constructValue_composite constructValue_Scalar_no_error
         split: option.splits sum.splits\<close>)
qed

section \<open>The cases of constructValue\<close>

text \<open>The facts that evaluate the generator on a given value.\<close>

lemmas eval_simps =
  indirectType_simps jen_Nil_def jen_Id_def jen_Op_def jen_Lit_def Add_def Values_of_def
  types_def Convert_def

lemma kind_String_inj: "kind_String k = kind_String k' \<Longrightarrow> k = k'"
  by (cases k; cases k'; simp)

lemma prim_Kind_case: "prim_Kind p \<in> set case_kinds"
  by (cases p) (simp_all add: case_kinds_def scalar_kinds_def)

text \<open>
  C6 (unsupported-kind failure). A value whose kind is none of the case labels of the
  switch (the zero value, a channel, a function, an unsafe pointer) makes
  \<^verbatim>\<open>constructValue\<close> return the nil code and the error
  \<^verbatim>\<open>unsupport value kind\<close> followed by the name of the kind; the message tells the kind,
  since no two kinds print alike.
\<close>

theorem unsupported_kind_error:
  "(Kind v \<notin> set case_kinds \<longrightarrow>
      constructValue v = Some (Null, Some (''unsupport value kind '' @ kind_String (Kind v)))) \<and>
   (''unsupport value kind '' @ kind_String k = ''unsupport value kind '' @ kind_String k' \<longrightarrow> k = k')"
proof (intro conjI impI)
  assume "Kind v \<notin> set case_kinds"
  then show "constructValue v = Some (Null, Some (''unsupport value kind '' @ kind_String (Kind v)))"
    using prim_Kind_case
    by (cases v) (auto simp: case_kinds_def Errorf_unsupport_def)
next
  assume "''unsupport value kind '' @ kind_String k = ''unsupport value kind '' @ kind_String k'"
  then show "k = k'" by (simp add: kind_String_inj)
qed

theorem unsupported_kind_error_witness:
  "Kind (FuncV (Named Func [] [])) \<notin> set case_kinds \<and>
   constructValue (FuncV (Named Func [] [])) = Some (Null, Some ''unsupport value kind func'')"
proof -
  have k: "Kind (FuncV (Named Func [] [])) \<notin> set case_kinds"
    by (simp add: case_kinds_def scalar_kinds_def)
  with unsupported_kind_error [of "FuncV (Named Func [] [])"] show ?thesis by simp
qed

text \<open>
  C3 (polymorphic unwrap). For a nil interface \<^verbatim>\<open>constructValue\<close> returns the
  identifier \<^verbatim>\<open>nil\<close>; for an interface that holds a value it returns exactly what it
  returns for the value held, whatever the interface type.
\<close>

theorem interface_unwrap:
  "constructValue (InterfaceV typ None) = Some (Statement [Nil], None) \<and>
   constructValue (InterfaceV typ (Some elem)) = constructValue elem"
  by (simp add: jen_Nil_def)

theorem interface_unwrap_witness:
  "constructValue (InterfaceV (Named Interface ''ast'' ''Expression'')
      (Some (StructV (Named Struct ''ast'' ''Identifier'')
         [(''Name'', True, Scalar (Named String [] ''string'') (PString ''x''))]))) =
   Some (Statement [Qual ''ast'' ''Identifier'',
      Values [Dict {#(Statement [Id ''Name''], Statement [Lit (Named String [] ''string'') (PString ''x'')])#}]],
      None)"
  using interface_unwrap [of "Named Interface ''ast'' ''Expression''"
      "StructV (Named Struct ''ast'' ''Identifier'')
         [(''Name'', True, Scalar (Named String [] ''string'') (PString ''x''))]"]
  by (simp add: eval_simps)

text \<open>
  C2 (nil distinction for slices). \<^verbatim>\<open>constructValue\<close> returns the identifier \<^verbatim>\<open>nil\<close>
  for a nil slice and never for a slice that is present. Where \<^verbatim>\<open>indirectType\<close> gives
  the expression \<open>s\<close> for the slice type, an empty slice gives \<open>s\<close> followed by an
  empty list of values, and a slice whose elements are encoded without error gives
  \<open>s\<close> followed by the codes of the elements, in the order of the indices.
\<close>

theorem slice_nil_distinction:
  "constructValue (SliceV typ None) = Some (Statement [Nil], None) \<and>
   constructValue (SliceV typ (Some elems)) \<noteq> Some (Statement [Nil], None) \<and>
   (indirectType typ = Some s \<longrightarrow>
      constructValue (SliceV typ (Some [])) = Some (Statement (s @ [Values []]), None) \<and>
      (list_all2 (\<lambda>x val. constructValue x = Some (val, None)) elems vals \<longrightarrow>
         constructValue (SliceV typ (Some elems)) = Some (Statement (s @ [Values vals]), None)))"
proof (intro conjI impI)
  show "constructValue (SliceV typ None) = Some (Statement [Nil], None)"
    by (simp add: jen_Nil_def)
  show "constructValue (SliceV typ (Some elems)) \<noteq> Some (Statement [Nil], None)"
    by (auto simp del: constructValue.simps simp: constructValue_SliceV split: option.splits sum.splits)
next
  assume s: "indirectType typ = Some s"
  then show "constructValue (SliceV typ (Some [])) = Some (Statement (s @ [Values []]), None)"
    by (simp del: constructValue.simps add: constructValue_SliceV)
  assume "list_all2 (\<lambda>x val. constructValue x = Some (val, None)) elems vals"
  then have "sequence elems = Some (Inr vals)" by (simp add: sequence_Inr_iff)
  with s show "constructValue (SliceV typ (Some elems)) = Some (Statement (s @ [Values vals]), None)"
    by (simp del: constructValue.simps add: constructValue_SliceV)
qed

theorem slice_nil_distinction_witness:
  "constructValue (SliceV (SliceOf [] [] (Named Int' [] ''int'')) None) = Some (Statement [Nil], None) \<and>
   constructValue (SliceV (SliceOf [] [] (Named Int' [] ''int'')) (Some [])) =
     Some (Statement [Index [], Statement [Qual [] ''int''], Values []], None) \<and>
   constructValue (SliceV (SliceOf [] [] (Named Int' [] ''int''))
       (Some [Scalar (Named Int' [] ''int'') (PInt 1), Scalar (Named Int' [] ''int'') (PInt 2)])) =
     Some (Statement [Index [], Statement [Qual [] ''int''],
       Values [Statement [Lit (Named Int' [] ''int'') (PInt 1)],
               Statement [Lit (Named Int' [] ''int'') (PInt 2)]]], None)"
proof -
  have s: "indirectType (SliceOf [] [] (Named Int' [] ''int'')) = Some [Index [], Statement [Qual [] ''int'']]"
    by (simp add: indirectType_simps)
  have e: "list_all2 (\<lambda>x val. constructValue x = Some (val, None))
       [Scalar (Named Int' [] ''int'') (PInt 1), Scalar (Named Int' [] ''int'') (PInt 2)]
       [Statement [Lit (Named Int' [] ''int'') (PInt 1)], Statement [Lit (Named Int' [] ''int'') (PInt 2)]]"
    by (simp add: eval_simps)
  from s e
    slice_nil_distinction [of "SliceOf [] [] (Named Int' [] ''int'')"
      "[Scalar (Named Int' [] ''int'') (PInt 1), Scalar (Named Int' [] ''int'') (PInt 2)]"
      "[Index [], Statement [Qual [] ''int'']]"
      "[Statement [Lit (Named Int' [] ''int'') (PInt 1)], Statement [Lit (Named Int' [] ''int'') (PInt 2)]]"]
  show ?thesis by simp
qed

lemma sequence_fields:
  "list_all2 (\<lambda>(name, canInterface, field) val. constructValue field = Some (val, None)) fields vals \<longleftrightarrow>
   sequence (map (\<lambda>(name, canInterface, field). field) fields) = Some (Inr vals)"
  by (simp add: sequence_Inr_iff list_all2_map1 split_def)

lemma filter_idem: "filter P (filter P xs) = filter P xs"
  by (induction xs) auto

text \<open>
  C5 (struct encoding). The fields that cannot be interfaced have no part in the
  result: \<^verbatim>\<open>constructValue\<close> returns for a struct what it returns for the struct
  without them, be it a code, an error or nothing, so that such a field raises no
  error whatever it holds. Where \<^verbatim>\<open>indirectType\<close> gives the expression \<open>s\<close> for the
  struct type and the fields that can be interfaced are encoded without error, the
  result is \<open>s\<close> followed by a dictionary that holds, for each of these fields and
  for no other, the identifier of its name with the code of its value: as many
  entries as there are such fields.
\<close>

theorem struct_fields:
  "constructValue (StructV typ fields) =
     constructValue (StructV typ (filter (\<lambda>(name, canInterface, field). canInterface) fields)) \<and>
   (indirectType typ = Some s \<longrightarrow>
    list_all2 (\<lambda>(name, canInterface, field) val. constructValue field = Some (val, None))
      (filter (\<lambda>(name, canInterface, field). canInterface) fields) vals \<longrightarrow>
    constructValue (StructV typ fields) =
      Some (Statement (s @ [Values [Dict (mset (zip
        (map (\<lambda>(name, canInterface, field). Statement [Id name])
           (filter (\<lambda>(name, canInterface, field). canInterface) fields)) vals))]]), None) \<and>
    size (mset (zip
        (map (\<lambda>(name, canInterface, field). Statement [Id name])
           (filter (\<lambda>(name, canInterface, field). canInterface) fields)) vals)) =
      length (filter (\<lambda>(name, canInterface, field). canInterface) fields))"
proof (intro conjI impI)
  show "constructValue (StructV typ fields) =
     constructValue (StructV typ (filter (\<lambda>(name, canInterface, field). canInterface) fields))"
    unfolding constructValue_StructV filter_idem by (rule refl)
next
  assume s: "indirectType typ = Some s"
    and l: "list_all2 (\<lambda>(name, canInterface, field) val. constructValue field = Some (val, None))
      (filter (\<lambda>(name, canInterface, field). canInterface) fields) vals"
  from l have "sequence (map (\<lambda>(name, canInterface, field). field)
      (filter (\<lambda>(name, canInterface, field). canInterface) fields)) = Some (Inr vals)"
    by (simp only: sequence_fields)
  with s show "constructValue (StructV typ fields) =
      Some (Statement (s @ [Values [Dict (mset (zip
        (map (\<lambda>(name, canInterface, field). Statement [Id name])
           (filter (\<lambda>(name, canInterface, field). canInterface) fields)) vals))]]), None)"
    by (simp del: constructValue.simps add: constructValue_StructV)
  from l have "length vals = length (filter (\<lambda>(name, canInterface, field). canInterface) fields)"
    by (simp add: list_all2_lengthD)
  then show "size (mset (zip
        (map (\<lambda>(name, canInterface, field). Statement [Id name])
           (filter (\<lambda>(name, canInterface, field). canInterface) fields)) vals)) =
      length (filter (\<lambda>(name, canInterface, field). canInterface) fields)"
    by simp
qed

theorem struct_fields_witness:
  "constructValue (StructV (Named Struct ''main'' ''T'')
      [(''A'', True, Scalar (Named Int' [] ''int'') (PInt 1)),
       (''b'', False, FuncV (Named Func [] []))]) =
   Some (Statement [Qual ''main'' ''T'',
      Values [Dict {#(Statement [Id ''A''], Statement [Lit (Named Int' [] ''int'') (PInt 1)])#}]], None)"
proof -
  have s: "indirectType (Named Struct ''main'' ''T'') = Some [Qual ''main'' ''T'']"
    by (simp add: indirectType_simps)
  have l: "list_all2 (\<lambda>(name, canInterface, field) val. constructValue field = Some (val, None))
      (filter (\<lambda>(name, canInterface, field). canInterface)
         [(''A'', True, Scalar (Named Int' [] ''int'') (PInt 1)),
          (''b'', False, FuncV (Named Func [] []))])
      [Statement [Lit (Named Int' [] ''int'') (PInt 1)]]"
    by (simp add: eval_simps)
  from s l
    struct_fields [of "Named Struct ''main'' ''T''"
      "[(''A'', True, Scalar (Named Int' [] ''int'') (PInt 1)),
        (''b'', False, FuncV (Named Func [] []))]"
      "[Qual ''main'' ''T'']" "[Statement [Lit (Named Int' [] ''int'') (PInt 1)]]"]
  show ?thesis by simp
qed

text \<open>
  C7 (fail-fast propagation). Let the recursive calls of \<^verbatim>\<open>constructValue v\<close> be on
  \<open>pre\<close>, then \<open>x\<close>, then \<open>post\<close>: the elements of an array or slice, the keys and
  elements of a map, the pointee, the content of an interface, the fields of a struct
  that can be interfaced. If the call on \<open>x\<close> is reached (the type expression of \<open>v\<close>
  was built, and the calls on \<open>pre\<close> returned no error) and returns the error \<open>err\<close>,
  then \<^verbatim>\<open>constructValue v\<close> returns the nil code and the same error \<open>err\<close>.
\<close>

theorem error_propagates:
  assumes "calls v = pre @ x # post"
    and "\<forall>p\<in>set pre. \<exists>c. constructValue p = Some (c, None)"
    and "constructValue x = Some (c, Some err)"
    and "\<forall>typ. resolves v = Some typ \<longrightarrow> indirectType typ \<noteq> None"
  shows "constructValue v = Some (Null, Some err)"
proof -
  have seq: "sequence (calls v) = Some (Inl err)"
    using assms(1-3) by (simp add: sequence_error)
  show ?thesis
  proof (cases v rule: calls.cases)
    case (3 t elem)
    with assms(1) have "x = elem" by (cases pre) auto
    with assms(3) 3 error_Null [of x c err] show ?thesis by simp
  qed (use seq assms(1,4) in \<open>auto simp del: constructValue.simps(1,3,7,9,10,11) sequence.simps
         simp: constructValue_composite\<close>)
qed

theorem error_propagates_witness:
  "constructValue (StructV (Named Struct ''main'' ''T'')
      [(''A'', True, Scalar (Named Int' [] ''int'') (PInt 1)),
       (''F'', True, FuncV (Named Func [] [])),
       (''C'', True, ChanV (Named Chan [] []))]) =
   Some (Null, Some ''unsupport value kind func'')"
proof -
  have 1: "calls (StructV (Named Struct ''main'' ''T'')
      [(''A'', True, Scalar (Named Int' [] ''int'') (PInt 1)),
       (''F'', True, FuncV (Named Func [] [])),
       (''C'', True, ChanV (Named Chan [] []))]) =
     [Scalar (Named Int' [] ''int'') (PInt 1)] @ FuncV (Named Func [] []) # [ChanV (Named Chan [] [])]"
    by simp
  have 2: "\<forall>p\<in>set [Scalar (Named Int' [] ''int'') (PInt 1)]. \<exists>c. constructValue p = Some (c, None)"
    by (simp add: eval_simps)
  have 3: "constructValue (FuncV (Named Func [] [])) = Some (Null, Some ''unsupport value kind func'')"
    by (simp add: Errorf_unsupport_def)
  have 4: "\<forall>typ. resolves (StructV (Named Struct ''main'' ''T'')
      [(''A'', True, Scalar (Named Int' [] ''int'') (PInt 1)),
       (''F'', True, FuncV (Named Func [] [])),
       (''C'', True, ChanV (Named Chan [] []))]) = Some typ \<longrightarrow> indirectType typ \<noteq> None"
    by (simp add: indirectType_simps)
  show ?thesis by (rule error_propagates [OF 1 2 3 4])
qed

section \<open>Values that are encoded without error\<close>

lemma supported_calls:
  "supported v \<longleftrightarrow> Kind v \<in> set case_kinds \<and> (\<forall>c\<in>set (calls v). supported c)"
  unfolding supported_def
  by (subst components_calls) (auto simp: list_all_iff)

lemma types_finite_calls:
  "types_finite v \<longleftrightarrow>
     (case resolves v of None \<Rightarrow> True | Some typ \<Rightarrow> finite_type typ) \<and>
     (\<forall>c\<in>set (calls v). types_finite c)"
  unfolding types_finite_def
  by (subst components_calls) (auto simp: list_all_iff)

lemma sequence_all_ok:
  "\<forall>x\<in>set xs. \<exists>s. constructValue x = Some (Statement s, None) \<Longrightarrow>
   \<exists>vals. sequence xs = Some (Inr vals)"
  by (induction xs) auto

lemma constructValue_Scalar_returns: "\<exists>s. constructValue (Scalar typ p) = Some (Statement s, None)"
  using constructValue_Scalar [of p] by blast

lemma resolved_returns:
  "resolves v = Some t \<Longrightarrow> indirectType t = Some s \<Longrightarrow> sequence (calls v) = Some (Inr vals) \<Longrightarrow>
   \<exists>s'. constructValue v = Some (Statement s', None)"
  by (cases v rule: calls.cases)
     (auto simp del: constructValue.simps(1,3,7,9,10,11) sequence.simps simp: constructValue_composite)

lemma unresolved_returns:
  "resolves v = None \<Longrightarrow> Kind v \<in> set case_kinds \<Longrightarrow>
   \<forall>c\<in>set (calls v). \<exists>s. constructValue c = Some (Statement s, None) \<Longrightarrow>
   \<exists>s'. constructValue v = Some (Statement s', None)"
  by (cases v rule: calls.cases)
     (auto simp del: constructValue.simps(11) simp: case_kinds_def scalar_kinds_def jen_Nil_def
        intro: constructValue_Scalar_returns)

lemma supported_returns:
  "supported v \<Longrightarrow> types_finite v \<Longrightarrow> \<exists>s. constructValue v = Some (Statement s, None)"
proof (induction v rule: calls_induct)
  case (step v)
  have k: "Kind v \<in> set case_kinds"
    and sub: "\<forall>c\<in>set (calls v). supported c" "\<forall>c\<in>set (calls v). types_finite c"
    and fin: "case resolves v of None \<Rightarrow> True | Some t \<Rightarrow> finite_type t"
    using step.prems supported_calls [of v] types_finite_calls [of v] by auto
  from sub step.IH have ok: "\<forall>x\<in>set (calls v). \<exists>s. constructValue x = Some (Statement s, None)"
    by blast
  then obtain vals where seq: "sequence (calls v) = Some (Inr vals)"
    using sequence_all_ok by blast
  show ?case
  proof (cases "resolves v")
    case None
    then show ?thesis using k ok by (rule unresolved_returns)
  next
    case (Some t)
    with fin have "finite_type t" by simp
    then obtain s where "indirectType t = Some s" using indirectType_finite by blast
    with Some show ?thesis using seq by (rule resolved_returns)
  qed
qed

lemma types_Kind: "types k = Some t \<Longrightarrow> TKind t = k"
  by (auto simp: types_def split: if_splits)

lemma supported_recursive: "supported (SliceV recursive_slice (Some []))"
  by (simp add: supported_def case_kinds_def)

text \<open>
  C10 (the success path), as the code has it. If every component of a value that the
  generator can reach has a kind with a case in the switch, and the type descriptors
  it hands to \<^verbatim>\<open>indirectType\<close> on the way are finite, then \<^verbatim>\<open>constructValue\<close> returns
  a code that is not nil and no error. The table \<^verbatim>\<open>types\<close> has an entry for every
  kind of the scalar case, and the type it gives for a kind is of that kind, so
  that the conversion in the scalar case is always defined. Without the condition on
  the descriptors the call need not return: a present slice of the type
  \<^verbatim>\<open>type T []T\<close> has a supported kind and no elements, and \<^verbatim>\<open>constructValue\<close> does not
  return on it.
\<close>

theorem supported_values_return:
  "(supported v \<longrightarrow> types_finite v \<longrightarrow> (\<exists>c. constructValue v = Some (c, None) \<and> c \<noteq> Null)) \<and>
   set scalar_kinds \<subseteq> dom types \<and>
   (types k = Some t \<longrightarrow> TKind t = k)"
  using supported_returns [of v] dom_types types_Kind [of k t] by auto

theorem supported_values_return_witness:
  "supported (PtrV (PtrTo [] [] (Named Struct ''ast'' ''File''))
     (Some (StructV (Named Struct ''ast'' ''File'')
        [(''Name'', True, Scalar (Named String [] ''string'') (PString ''a'')),
         (''Body'', True, SliceV (SliceOf [] [] (Named Interface ''ast'' ''Statement'')) (Some []))]))) \<and>
   types_finite (PtrV (PtrTo [] [] (Named Struct ''ast'' ''File''))
     (Some (StructV (Named Struct ''ast'' ''File'')
        [(''Name'', True, Scalar (Named String [] ''string'') (PString ''a'')),
         (''Body'', True, SliceV (SliceOf [] [] (Named Interface ''ast'' ''Statement'')) (Some []))]))) \<and>
   (\<exists>c. constructValue (PtrV (PtrTo [] [] (Named Struct ''ast'' ''File''))
     (Some (StructV (Named Struct ''ast'' ''File'')
        [(''Name'', True, Scalar (Named String [] ''string'') (PString ''a'')),
         (''Body'', True, SliceV (SliceOf [] [] (Named Interface ''ast'' ''Statement'')) (Some []))]))) =
       Some (c, None) \<and> c \<noteq> Null)"
proof -
  let ?v = "PtrV (PtrTo [] [] (Named Struct ''ast'' ''File''))
     (Some (StructV (Named Struct ''ast'' ''File'')
        [(''Name'', True, Scalar (Named String [] ''string'') (PString ''a'')),
         (''Body'', True, SliceV (SliceOf [] [] (Named Interface ''ast'' ''Statement'')) (Some []))]))"
  have s: "supported ?v"
    by (simp add: supported_def case_kinds_def scalar_kinds_def)
  have f: "types_finite ?v"
    by (simp add: types_finite_def finite_type.intros)
  from s f supported_values_return [of ?v] show ?thesis by blast
qed

theorem supported_value_of_recursive_type_diverges:
  "supported (SliceV recursive_slice (Some [])) \<and>
   constructValue (SliceV recursive_slice (Some [])) = None"
  using supported_recursive indirectType_recursive_slice by simp

section \<open>The order of map entries\<close>

lemma mset_eq_short: "mset xs = mset ys \<Longrightarrow> length ys \<le> 1 \<Longrightarrow> xs = ys"
proof (cases ys)
  case Nil
  assume "mset xs = mset ys"
  with Nil show ?thesis by simp
next
  case (Cons y ys')
  assume "mset xs = mset ys" "length ys \<le> 1"
  with Cons have "ys' = []" "mset xs = {#y#}" by auto
  then show ?thesis using Cons by (cases xs) auto
qed

lemma same_value_small: "same_value v w \<Longrightarrow> small_maps v \<Longrightarrow> w = v"
proof (induction rule: same_value.induct)
  case (ArrayV elems elems' t)
  have "list_all2 (\<lambda>x y. x = y) elems elems'"
    using ArrayV.IH ArrayV.prems by (auto elim!: list.rel_mono_strong)
  then have "elems = elems'" by (simp add: list_all2_eq)
  then show ?case by simp
next
  case (SliceV elems elems' t)
  have "list_all2 (\<lambda>x y. x = y) elems elems'"
    using SliceV.IH SliceV.prems by (auto elim!: list.rel_mono_strong)
  then have "elems = elems'" by (simp add: list_all2_eq)
  then show ?case by simp
next
  case (MapV entries entries' entries'' t)
  have "list_all2 (\<lambda>x y. x = y) entries entries'"
    using MapV.IH MapV.prems by (auto elim!: list.rel_mono_strong intro: prod_eqI)
  then have e: "entries = entries'" by (simp add: list_all2_eq)
  with MapV.hyps MapV.prems have "entries'' = entries"
    by (auto intro: mset_eq_short)
  then show ?case by simp
next
  case (StructV fields fields' t)
  have "list_all2 (\<lambda>x y. x = y) fields fields'"
    using StructV.IH StructV.prems by (auto elim!: list.rel_mono_strong intro!: prod_eqI)
  then have "fields = fields'" by (simp add: list_all2_eq)
  then show ?case by simp
qed simp_all

text \<open>
  C9 (determinism modulo map order). Take two views of one value, which differ at
  most in the order in which \<^verbatim>\<open>MapKeys\<close> lists the entries of its maps. If every map
  in the value has at most one entry, \<^verbatim>\<open>constructValue\<close> gives the same outcome on
  both: only a map of two or more entries can make two runs differ.
\<close>

theorem deterministic_for_small_maps:
  "small_maps v \<Longrightarrow> same_value v w \<Longrightarrow> constructValue w = constructValue v"
  using same_value_small by blast

theorem deterministic_for_small_maps_witness:
  "small_maps (MapV (MapOf [] [] (Named String [] ''string'') (Named Int' [] ''int''))
      (Some [(Scalar (Named String [] ''string'') (PString ''a''), Scalar (Named Int' [] ''int'') (PInt 1))])) \<and>
   same_value
     (MapV (MapOf [] [] (Named String [] ''string'') (Named Int' [] ''int''))
        (Some [(Scalar (Named String [] ''string'') (PString ''a''), Scalar (Named Int' [] ''int'') (PInt 1))]))
     (MapV (MapOf [] [] (Named String [] ''string'') (Named Int' [] ''int''))
        (Some [(Scalar (Named String [] ''string'') (PString ''a''), Scalar (Named Int' [] ''int'') (PInt 1))])) \<and>
   constructValue
     (MapV (MapOf [] [] (Named String [] ''string'') (Named Int' [] ''int''))
        (Some [(Scalar (Named String [] ''string'') (PString ''a''), Scalar (Named Int' [] ''int'') (PInt 1))])) =
     Some (Statement [Index [Statement [Qual [] ''string'']], Statement [Qual [] ''int''],
        Values [Dict {#(Statement [Lit (Named String [] ''string'') (PString ''a'')],
                        Statement [Lit (Named Int' [] ''int'') (PInt 1)])#}]], None)"
proof -
  let ?v = "MapV (MapOf [] [] (Named String [] ''string'') (Named Int' [] ''int''))
      (Some [(Scalar (Named String [] ''string'') (PString ''a''), Scalar (Named Int' [] ''int'') (PInt 1))])"
  have s: "small_maps ?v" by simp
  have sv: "same_value ?v ?v"
    by (rule same_value.MapV [where entries' =
          "[(Scalar (Named String [] ''string'') (PString ''a''), Scalar (Named Int' [] ''int'') (PInt 1))]"])
       (simp_all add: same_value.Scalar)
  have "constructValue ?v =
     Some (Statement [Index [Statement [Qual [] ''string'']], Statement [Qual [] ''int''],
        Values [Dict {#(Statement [Lit (Named String [] ''string'') (PString ''a'')],
                        Statement [Lit (Named Int' [] ''int'') (PInt 1)])#}]], None)"
    using deterministic_for_small_maps [OF s sv] by (simp add: eval_simps)
  with s sv show ?thesis by blast
qed

text \<open>
  With two entries the outcome can depend on the order: of two entries that fail, the
  one visited first gives the error.
\<close>

lemma larger_map_order_decides_error:
  "same_value
     (MapV (MapOf [] [] (Named String [] ''string'') (Named Interface [] []))
        (Some [(Scalar (Named String [] ''string'') (PString ''a''), InterfaceV (Named Interface [] []) (Some (ChanV (Named Chan [] [])))),
               (Scalar (Named String [] ''string'') (PString ''b''), InterfaceV (Named Interface [] []) (Some (FuncV (Named Func [] []))))]))
     (MapV (MapOf [] [] (Named String [] ''string'') (Named Interface [] []))
        (Some [(Scalar (Named String [] ''string'') (PString ''b''), InterfaceV (Named Interface [] []) (Some (FuncV (Named Func [] [])))),
               (Scalar (Named String [] ''string'') (PString ''a''), InterfaceV (Named Interface [] []) (Some (ChanV (Named Chan [] []))))])) \<and>
   constructValue
     (MapV (MapOf [] [] (Named String [] ''string'') (Named Interface [] []))
        (Some [(Scalar (Named String [] ''string'') (PString ''a''), InterfaceV (Named Interface [] []) (Some (ChanV (Named Chan [] [])))),
               (Scalar (Named String [] ''string'') (PString ''b''), InterfaceV (Named Interface [] []) (Some (FuncV (Named Func [] []))))])) =
     Some (Null, Some ''unsupport value kind chan'') \<and>
   constructValue
     (MapV (MapOf [] [] (Named String [] ''string'') (Named Interface [] []))
        (Some [(Scalar (Named String [] ''string'') (PString ''b''), InterfaceV (Named Interface [] []) (Some (FuncV (Named Func [] [])))),
               (Scalar (Named String [] ''string'') (PString ''a''), InterfaceV (Named Interface [] []) (Some (ChanV (Named Chan [] []))))])) =
     Some (Null, Some ''unsupport value kind func'')"
proof (intro conjI)
  show "same_value
     (MapV (MapOf [] [] (Named String [] ''string'') (Named Interface [] []))
        (Some [(Scalar (Named String [] ''string'') (PString ''a''), InterfaceV (Named Interface [] []) (Some (ChanV (Named Chan [] [])))),
               (Scalar (Named String [] ''string'') (PString ''b''), InterfaceV (Named Interface [] []) (Some (FuncV (Named Func [] []))))]))
     (MapV (MapOf [] [] (Named String [] ''string'') (Named Interface [] []))
        (Some [(Scalar (Named String [] ''string'') (PString ''b''), InterfaceV (Named Interface [] []) (Some (FuncV (Named Func [] [])))),
               (Scalar (Named String [] ''string'') (PString ''a''), InterfaceV (Named Interface [] []) (Some (ChanV (Named Chan [] []))))]))"
    by (rule same_value.MapV [where entries' =
          "[(Scalar (Named String [] ''string'') (PString ''a''), InterfaceV (Named Interface [] []) (Some (ChanV (Named Chan [] [])))),
            (Scalar (Named String [] ''string'') (PString ''b''), InterfaceV (Named Interface [] []) (Some (FuncV (Named Func [] []))))]"])
       (simp_all add: same_value.intros)
qed (simp_all add: eval_simps Errorf_unsupport_def)

lemma pairs_flat: "pairs (concat (map (\<lambda>(a, b). [a, b]) kvs)) = kvs"
  by (induction kvs) auto

lemma sequence_entries_intro:
  "list_all2 (\<lambda>(k, elem) (key, val).
       constructValue k = Some (key, None) \<and> constructValue elem = Some (val, None)) entries kvs \<Longrightarrow>
   sequence (concat (map (\<lambda>(k, elem). [k, elem]) entries)) =
     Some (Inr (concat (map (\<lambda>(a, b). [a, b]) kvs)))"
  by (induction rule: list_all2_induct) auto

lemma sequence_entries_elim:
  "sequence (concat (map (\<lambda>(k, elem). [k, elem]) entries)) = Some (Inr vals) \<Longrightarrow>
   \<exists>kvs. vals = concat (map (\<lambda>(a, b). [a, b]) kvs) \<and>
     list_all2 (\<lambda>(k, elem) (key, val).
       constructValue k = Some (key, None) \<and> constructValue elem = Some (val, None)) entries kvs"
proof (induction entries arbitrary: vals)
  case Nil
  then show ?case by simp
next
  case (Cons entry entries)
  obtain k elem where entry: "entry = (k, elem)" by (cases entry)
  from Cons.prems obtain key val vals' where
    k: "constructValue k = Some (key, None)" and e: "constructValue elem = Some (val, None)"
    and rest: "sequence (concat (map (\<lambda>(k, elem). [k, elem]) entries)) = Some (Inr vals')"
    and vals: "vals = key # val # vals'"
    unfolding entry by (auto split: option.splits sum.splits)
  from Cons.IH [OF rest] obtain kvs where
    "vals' = concat (map (\<lambda>(a, b). [a, b]) kvs)"
    "list_all2 (\<lambda>(k, elem) (key, val).
       constructValue k = Some (key, None) \<and> constructValue elem = Some (val, None)) entries kvs"
    by blast
  with k e vals entry show ?case
    by (intro exI [of _ "(key, val) # kvs"]) simp
qed

lemma constructValue_MapV_entries:
  "indirectType typ = Some s \<Longrightarrow>
   list_all2 (\<lambda>(k, elem) (key, val).
       constructValue k = Some (key, None) \<and> constructValue elem = Some (val, None)) entries kvs \<Longrightarrow>
   constructValue (MapV typ (Some entries)) = Some (Statement (s @ [Values [Dict (mset kvs)]]), None)"
  by (simp del: constructValue.simps add: constructValue_MapV sequence_entries_intro pairs_flat)

lemma constructValue_MapV_reorder:
  assumes "mset entries' = mset entries"
    and "constructValue (MapV typ (Some entries)) = Some (c, None)"
  shows "constructValue (MapV typ (Some entries')) = Some (c, None)"
proof -
  from assms(2) obtain s vals where s: "indirectType typ = Some s"
    and seq: "sequence (concat (map (\<lambda>(k, elem). [k, elem]) entries)) = Some (Inr vals)"
    and c: "c = Statement (s @ [Values [Dict (mset (pairs vals))]])"
    by (auto simp del: constructValue.simps simp: constructValue_MapV split: option.splits sum.splits)
  from sequence_entries_elim [OF seq] obtain kvs where
    vals: "vals = concat (map (\<lambda>(a, b). [a, b]) kvs)"
    and l: "list_all2 (\<lambda>(k, elem) (key, val).
       constructValue k = Some (key, None) \<and> constructValue elem = Some (val, None)) entries kvs"
    by blast
  from list_all2_reorder_left_invariance [OF l assms(1)] obtain kvs' where
    l': "list_all2 (\<lambda>(k, elem) (key, val).
       constructValue k = Some (key, None) \<and> constructValue elem = Some (val, None)) entries' kvs'"
    and m: "mset kvs' = mset kvs"
    by blast
  from constructValue_MapV_entries [OF s l'] m c vals show ?thesis
    by (simp add: pairs_flat)
qed

text \<open>
  C4 (map entries), as the code has it. The entries are visited in the order in which
  \<^verbatim>\<open>MapKeys\<close> lists them, and each encoded key is stored with its encoded element in
  a \<^verbatim>\<open>jen.Dict\<close>, which keeps no order. So the code returned for a present map whose
  keys and elements are encoded without error is the type expression followed by the
  dictionary of the encoded pairs, and it is the same code for every order in which
  the entries are listed: the expression does not record the order of iteration.
\<close>

theorem map_entries_unordered:
  "(mset entries' = mset entries \<longrightarrow>
      constructValue (MapV typ (Some entries)) = Some (c, None) \<longrightarrow>
      constructValue (MapV typ (Some entries')) = Some (c, None)) \<and>
   (indirectType typ = Some s \<longrightarrow>
      list_all2 (\<lambda>(k, elem) (key, val).
        constructValue k = Some (key, None) \<and> constructValue elem = Some (val, None)) entries kvs \<longrightarrow>
      constructValue (MapV typ (Some entries)) = Some (Statement (s @ [Values [Dict (mset kvs)]]), None))"
  using constructValue_MapV_reorder constructValue_MapV_entries by blast

theorem map_entries_unordered_witness:
  "constructValue
     (MapV (MapOf [] [] (Named String [] ''string'') (Named Int' [] ''int''))
        (Some [(Scalar (Named String [] ''string'') (PString ''b''), Scalar (Named Int' [] ''int'') (PInt 2)),
               (Scalar (Named String [] ''string'') (PString ''a''), Scalar (Named Int' [] ''int'') (PInt 1))])) =
     Some (Statement [Index [Statement [Qual [] ''string'']], Statement [Qual [] ''int''],
        Values [Dict {#(Statement [Lit (Named String [] ''string'') (PString ''a'')],
                        Statement [Lit (Named Int' [] ''int'') (PInt 1)]),
                       (Statement [Lit (Named String [] ''string'') (PString ''b'')],
                        Statement [Lit (Named Int' [] ''int'') (PInt 2)])#}]], None)"
proof -
  let ?t = "MapOf [] [] (Named String [] ''string'') (Named Int' [] ''int'')"
  let ?a = "(Scalar (Named String [] ''string'') (PString ''a''), Scalar (Named Int' [] ''int'') (PInt 1))"
  let ?b = "(Scalar (Named String [] ''string'') (PString ''b''), Scalar (Named Int' [] ''int'') (PInt 2))"
  let ?ka = "(Statement [Lit (Named String [] ''string'') (PString ''a'')], Statement [Lit (Named Int' [] ''int'') (PInt 1)])"
  let ?kb = "(Statement [Lit (Named String [] ''string'') (PString ''b'')], Statement [Lit (Named Int' [] ''int'') (PInt 2)])"
  have s: "indirectType ?t = Some [Index [Statement [Qual [] ''string'']], Statement [Qual [] ''int'']]"
    by (simp add: indirectType_simps)
  have l: "list_all2 (\<lambda>(k, elem) (key, val).
        constructValue k = Some (key, None) \<and> constructValue elem = Some (val, None)) [?a, ?b] [?ka, ?kb]"
    by (simp add: eval_simps)
  have m: "mset [?b, ?a] = mset [?a, ?b]" by (simp add: add_mset_commute)
  note inst = map_entries_unordered [of "[?b, ?a]" "[?a, ?b]" ?t
      "Statement [Index [Statement [Qual [] ''string'']], Statement [Qual [] ''int''], Values [Dict {#?ka, ?kb#}]]"
      "[Index [Statement [Qual [] ''string'']], Statement [Qual [] ''int'']]" "[?ka, ?kb]"]
  from inst s l have "constructValue (MapV ?t (Some [?a, ?b])) =
      Some (Statement [Index [Statement [Qual [] ''string'']], Statement [Qual [] ''int''],
        Values [Dict {#?ka, ?kb#}]], None)"
    by (simp add: add_mset_commute)
  with inst m show ?thesis by blast
qed

text \<open>
  The two orders of a map of two entries give one and the same code, in which no
  entry comes first.
\<close>

theorem map_entry_order_not_kept:
  "constructValue
     (MapV (MapOf [] [] (Named String [] ''string'') (Named Int' [] ''int''))
        (Some [(Scalar (Named String [] ''string'') (PString ''a''), Scalar (Named Int' [] ''int'') (PInt 1)),
               (Scalar (Named String [] ''string'') (PString ''b''), Scalar (Named Int' [] ''int'') (PInt 2))])) =
   constructValue
     (MapV (MapOf [] [] (Named String [] ''string'') (Named Int' [] ''int''))
        (Some [(Scalar (Named String [] ''string'') (PString ''b''), Scalar (Named Int' [] ''int'') (PInt 2)),
               (Scalar (Named String [] ''string'') (PString ''a''), Scalar (Named Int' [] ''int'') (PInt 1))])) \<and>
   constructValue
     (MapV (MapOf [] [] (Named String [] ''string'') (Named Int' [] ''int''))
        (Some [(Scalar (Named String [] ''string'') (PString ''a''), Scalar (Named Int' [] ''int'') (PInt 1)),
               (Scalar (Named String [] ''string'') (PString ''b''), Scalar (Named Int' [] ''int'') (PInt 2))])) =
     Some (Statement [Index [Statement [Qual [] ''string'']], Statement [Qual [] ''int''],
        Values [Dict {#(Statement [Lit (Named String [] ''string'') (PString ''a'')],
                        Statement [Lit (Named Int' [] ''int'') (PInt 1)]),
                       (Statement [Lit (Named String [] ''string'') (PString ''b'')],
                        Statement [Lit (Named Int' [] ''int'') (PInt 2)])#}]], None) \<and>
   [(Scalar (Named String [] ''string'') (PString ''a''), Scalar (Named Int' [] ''int'') (PInt 1)),
    (Scalar (Named String [] ''string'') (PString ''b''), Scalar (Named Int' [] ''int'') (PInt 2))] \<noteq>
   [(Scalar (Named String [] ''string'') (PString ''b''), Scalar (Named Int' [] ''int'') (PInt 2)),
    (Scalar (Named String [] ''string'') (PString ''a''), Scalar (Named Int' [] ''int'') (PInt 1))]"
  by (simp add: eval_simps add_mset_commute)

section \<open>Arrays and slices\<close>

lemma constructValue_array_slice:
  "constructValue (ArrayV (ArrayOf p n l elem) elems) =
   constructValue (SliceV (SliceOf p' n' elem) (Some elems))"
  by (simp add: indirectType_simps)

text \<open>
  C1 (round trip) fails on arrays. \<^verbatim>\<open>indirectType\<close> gives an array type the expression
  of the slice type of its elements, so the array \<^verbatim>\<open>[2]int{1, 2}\<close> and the slice
  \<^verbatim>\<open>[]int{1, 2}\<close> get the same code, \<^verbatim>\<open>[]int{1, 2}\<close>: nothing that reads the code
  can give back both values, and Go makes a slice of it.
\<close>

theorem array_encodes_as_slice:
  "constructValue (ArrayV (ArrayOf [] [] 2 (Named Int' [] ''int''))
      [Scalar (Named Int' [] ''int'') (PInt 1), Scalar (Named Int' [] ''int'') (PInt 2)]) =
     Some (Statement [Index [], Statement [Qual [] ''int''],
       Values [Statement [Lit (Named Int' [] ''int'') (PInt 1)],
               Statement [Lit (Named Int' [] ''int'') (PInt 2)]]], None) \<and>
   constructValue (SliceV (SliceOf [] [] (Named Int' [] ''int''))
      (Some [Scalar (Named Int' [] ''int'') (PInt 1), Scalar (Named Int' [] ''int'') (PInt 2)])) =
     Some (Statement [Index [], Statement [Qual [] ''int''],
       Values [Statement [Lit (Named Int' [] ''int'') (PInt 1)],
               Statement [Lit (Named Int' [] ''int'') (PInt 2)]]], None) \<and>
   ArrayV (ArrayOf [] [] 2 (Named Int' [] ''int''))
      [Scalar (Named Int' [] ''int'') (PInt 1), Scalar (Named Int' [] ''int'') (PInt 2)] \<noteq>
   SliceV (SliceOf [] [] (Named Int' [] ''int''))
      (Some [Scalar (Named Int' [] ''int'') (PInt 1), Scalar (Named Int' [] ''int'') (PInt 2)])"
  by (simp add: eval_simps)

end
